theory Spec2Isabelle
  imports Main "HOL-Library.AList"
begin

section \<open>The chat hub of main.go\<close>

text \<open>
  The server keeps one \<open>ConnectionPool\<close>: the roster \<open>connections\<close> (remote address to
  connection), the forward nickname map \<open>nicks\<close> (remote address to nickname) and the
  reverse map \<open>rnicks\<close> (nickname to remote address). The goroutine \<open>Run\<close> takes one
  event at a time from four channels; the channels are modelled by the list of events
  that \<open>Run\<close> receives, in the order it receives them.

  A \<open>net.Conn\<close> is an interface value. Two of them are equal (\<open>==\<close>) when they are the
  same object, and \<open>RemoteAddr().String()\<close> is fixed for the life of the object: a
  connection is modelled by its object identity \<open>handle\<close> and its remote address.

  Go strings are byte strings, as \<^typ>\<open>string\<close> is. The calls of \<open>log.Printf\<close> write to
  the server's own log and are left out; every \<open>fmt.Fprintf\<close> to a connection and every
  \<open>Close\<close> is recorded as an \<open>action\<close>, in program order.
\<close>

subsection \<open>Data\<close>

datatype conn = Conn (handle: nat) (RemoteAddr: string)

record Message =
  connection :: conn
  message :: string

text \<open>
  The roster is a Go map that the code iterates over (\<open>range\<close>), so it is an association
  list with distinct keys: the order of the list stands for the order in which \<open>range\<close>
  visits the entries, which Go leaves open. \<open>nicks\<close> and \<open>rnicks\<close> are only read and
  written by key.
\<close>

record ConnectionPool =
  connections :: "(string \<times> conn) list"
  nicks :: "string \<rightharpoonup> string"
  rnicks :: "string \<rightharpoonup> string"

definition newConnectionPool :: ConnectionPool where
  "newConnectionPool = \<lparr>connections = [], nicks = Map.empty, rnicks = Map.empty\<rparr>"

datatype action = Write conn string | Close conn

datatype event = Register conn | Unregister conn | Inbound Message | Shutdown

text \<open>The only run-time panic the hub's code can raise: indexing a slice out of range.\<close>

datatype error = IndexOutOfRange

subsection \<open>The functions of package \<open>strings\<close> that the hub calls\<close>

abbreviation sp :: char where "sp \<equiv> CHR 0x20"
abbreviation nl :: string where "nl \<equiv> [CHR 0x0A]"
abbreviation sq :: string where "sq \<equiv> [CHR 0x27]"

text \<open>
  \<open>strings.Split(s, " ")\<close>: the substrings between the spaces; \<open>n\<close> spaces give \<open>n + 1\<close>
  substrings, empty ones included, and the empty string gives one empty substring.
\<close>

fun strings_Split :: "string \<Rightarrow> string list" where
  "strings_Split [] = [[]]"
| "strings_Split (c # cs) =
     (if c = sp then [] # strings_Split cs
      else (case strings_Split cs of
              [] \<Rightarrow> [[c]]
            | w # ws \<Rightarrow> (c # w) # ws))"

text \<open>\<open>strings.Join(elems, sep)\<close>.\<close>

fun strings_Join :: "string list \<Rightarrow> string \<Rightarrow> string" where
  "strings_Join [] sep = []"
| "strings_Join [x] sep = x"
| "strings_Join (x # y # ys) sep = x @ sep @ strings_Join (y # ys) sep"

text \<open>\<open>strings.HasPrefix(s, "/")\<close>.\<close>

definition HasPrefix_slash :: "string \<Rightarrow> bool" where
  "HasPrefix_slash s = (case s of [] \<Rightarrow> False | c # _ \<Rightarrow> c = CHR ''/'')"

subsection \<open>The hub\<close>

text \<open>
  \<open>getNames\<close>: the sender's remote address and its display name. Reading a missing key
  of a Go map gives the empty string, so a nickname that is missing and a nickname that
  is empty both give the remote address.
\<close>

definition getNames :: "ConnectionPool \<Rightarrow> Message \<Rightarrow> string \<times> string" where
  "getNames pool m =
     (let name = RemoteAddr (connection m);
          nick = (case nicks pool name of None \<Rightarrow> [] | Some v \<Rightarrow> v)
      in (name, if nick = [] then name else nick))"

text \<open>\<open>sendAll\<close>: one write per roster entry, in the order of the iteration.\<close>

definition sendAll :: "ConnectionPool \<Rightarrow> string \<Rightarrow> string \<Rightarrow> action list" where
  "sendAll pool from text =
     map (\<lambda>(n, c). if n = from then Write c (''> '' @ text @ nl)
                   else Write c (from @ ''> '' @ text @ nl))
         (connections pool)"

text \<open>
  \<open>connectionFromNickOrName\<close>: \<open>None\<close> is Go's \<open>nil\<close>, the value of a missing roster key.
\<close>

definition connectionFromNickOrName :: "ConnectionPool \<Rightarrow> string \<Rightarrow> conn option" where
  "connectionFromNickOrName pool name =
     (let name' = (case rnicks pool name of Some tmp \<Rightarrow> tmp | None \<Rightarrow> name)
      in map_of (connections pool) name')"

text \<open>The line of \<open>/who\<close> for one roster entry.\<close>

definition who_line :: "ConnectionPool \<Rightarrow> Message \<Rightarrow> string \<times> conn \<Rightarrow> string" where
  "who_line pool m = (\<lambda>(name, c).
     (let name1 = (case nicks pool name of
                     Some nick \<Rightarrow> nick @ '' ('' @ name @ '')''
                   | None \<Rightarrow> name)
      in if c = connection m then name1 @ '' *'' else name1))"

text \<open>
  \<open>handleCommand\<close>. \<open>parts[0]\<close> on an empty slice panics; the panic is the result
  \<open>Inl IndexOutOfRange\<close>. Otherwise the result is the pool after the command and the
  writes it made.
\<close>

definition handleCommand ::
  "ConnectionPool \<Rightarrow> Message \<Rightarrow> error + (ConnectionPool \<times> action list)" where
  "handleCommand pool m =
     (let (name, nick) = getNames pool m;
          text = message m
      in case strings_Split text of
           [] \<Rightarrow> Inl IndexOutOfRange
         | cmd # parts \<Rightarrow>
             if cmd = ''/nick'' then
               (if length parts > 1 then
                  Inr (pool, [Write (connection m)
                    (''Nickname '' @ sq @ strings_Join parts '' '' @ sq @ '' cannot have spaces in'' @ nl)])
                else
                  (case parts of
                     [] \<Rightarrow> Inl IndexOutOfRange
                   | newNick # _ \<Rightarrow>
                       (case connectionFromNickOrName pool newNick of
                          Some remote \<Rightarrow>
                            Inr (pool,
                              [Write (connection m)
                                 (''Nickname '' @ sq @ newNick @ sq @ '' is already taken by ''
                                    @ RemoteAddr remote @ nl),
                               Write remote
                                 (''User '' @ sq @ name @ sq @ '' tried to steal your nickname ''
                                    @ sq @ newNick @ sq @ nl)])
                        | None \<Rightarrow>
                            (let pool' = pool\<lparr>nicks := (nicks pool)(name \<mapsto> newNick),
                                              rnicks := (rnicks pool)(newNick \<mapsto> RemoteAddr (connection m))\<rparr>
                             in Inr (pool',
                                  sendAll pool' name
                                    (''Nickname changed from '' @ sq @ nick @ sq @ '' to ''
                                       @ sq @ newNick @ sq))))))
             else if cmd = ''/privmsg'' then
               (case parts of
                  [] \<Rightarrow> Inl IndexOutOfRange
                | rnick # rest \<Rightarrow>
                    (let text' = strings_Join rest '' ''
                     in case connectionFromNickOrName pool rnick of
                          None \<Rightarrow>
                            Inr (pool, [Write (connection m)
                              (''Couldn'' @ sq @ ''t find a person named '' @ sq @ rnick @ sq @ nl)])
                        | Some remote \<Rightarrow>
                            if remote = connection m then
                              Inr (pool, [Write (connection m)
                                (''You can'' @ sq @ ''t privmsg yourself'' @ nl)])
                            else
                              Inr (pool,
                                [Write remote (nick @ '' (private)> '' @ text' @ nl),
                                 Write (connection m) (''Message sent'' @ nl)])))
             else if cmd = ''/who'' then
               Inr (pool, [Write (connection m)
                 (strings_Join (map (who_line pool m) (connections pool)) nl @ nl)])
             else
               Inr (pool, [Write (connection m) (''Unknown command '' @ cmd @ nl)]))"

definition handleMessage :: "ConnectionPool \<Rightarrow> Message \<Rightarrow> action list" where
  "handleMessage pool m =
     (let (name, nick) = getNames pool m
      in sendAll pool nick (message m))"

text \<open>
  One turn of the \<open>select\<close> in \<open>Run\<close>. A map assignment replaces the value of a key that
  is present and adds the key otherwise; \<open>delete\<close> of a missing key does nothing.
\<close>

fun Run_step :: "ConnectionPool \<Rightarrow> event \<Rightarrow> error + (ConnectionPool \<times> action list)" where
  "Run_step pool (Register c) =
     Inr (pool\<lparr>connections := AList.update (RemoteAddr c) c (connections pool)\<rparr>, [])"
| "Run_step pool (Unregister c) =
     Inr (pool\<lparr>connections := AList.delete (RemoteAddr c) (connections pool)\<rparr>, [])"
| "Run_step pool (Inbound m) =
     (if HasPrefix_slash (message m) then handleCommand pool m
      else Inr (pool, handleMessage pool m))"
| "Run_step pool Shutdown = Inr (pool, map (\<lambda>(n, c). Close c) (connections pool))"

text \<open>
  The loop of \<open>Run\<close> over the events it receives: it returns after \<open>Shutdown\<close>, a panic
  ends it, and the writes of the turns are put one after the other.
\<close>

fun Run :: "ConnectionPool \<Rightarrow> event list \<Rightarrow> error + (ConnectionPool \<times> action list)" where
  "Run pool [] = Inr (pool, [])"
| "Run pool (e # es) =
     (case Run_step pool e of
        Inl err \<Rightarrow> Inl err
      | Inr (pool', out) \<Rightarrow>
          if e = Shutdown then Inr (pool', out)
          else (case Run pool' es of
                  Inl err \<Rightarrow> Inl err
                | Inr (pool'', out') \<Rightarrow> Inr (pool'', out @ out')))"

subsection \<open>Properties of a pool\<close>

text \<open>
  Every roster key is the remote address of the connection stored under it, and no key
  occurs twice. \<open>Run\<close> only ever stores a connection under its own remote address, and a
  Go map has each key once.
\<close>

definition roster_wf :: "ConnectionPool \<Rightarrow> bool" where
  "roster_wf pool \<longleftrightarrow>
     distinct (map fst (connections pool))
     \<and> list_all (\<lambda>(n, c). RemoteAddr c = n) (connections pool)"

text \<open>The connection \<open>c\<close> is the one the roster holds for its remote address.\<close>

definition registered :: "ConnectionPool \<Rightarrow> conn \<Rightarrow> bool" where
  "registered pool c \<longleftrightarrow> map_of (connections pool) (RemoteAddr c) = Some c"

text \<open>The display name of a connection: its nickname when it has a non-empty one.\<close>

definition display_name :: "ConnectionPool \<Rightarrow> conn \<Rightarrow> string" where
  "display_name pool c =
     (case nicks pool (RemoteAddr c) of
        None \<Rightarrow> RemoteAddr c
      | Some n \<Rightarrow> if n = [] then RemoteAddr c else n)"


text \<open>
  The entry of \<open>/who\<close> as the specification words it: the identity, then its nickname in
  parentheses when one is bound, then an asterisk on the requester's own entry.
\<close>

definition who_entry_spec :: "ConnectionPool \<Rightarrow> string \<Rightarrow> string \<Rightarrow> string" where
  "who_entry_spec pool requester name =
     name
     @ (case nicks pool name of Some nick \<Rightarrow> '' ('' @ nick @ '')'' | None \<Rightarrow> [])
     @ (if name = requester then '' *'' else [])"

text \<open>
  The entry of \<open>/who\<close> by identity alone: the nickname followed by the identity in
  parentheses when a nickname is bound, the identity otherwise, then an asterisk on the
  requester's own entry.
\<close>

definition who_entry :: "ConnectionPool \<Rightarrow> string \<Rightarrow> string \<Rightarrow> string" where
  "who_entry pool requester name =
     (case nicks pool name of Some nick \<Rightarrow> nick @ '' ('' @ name @ '')'' | None \<Rightarrow> name)
     @ (if name = requester then '' *'' else [])"

text \<open>The two framings of a broadcast line.\<close>

definition self_framed :: "string \<Rightarrow> string" where
  "self_framed text = ''> '' @ text @ nl"

definition attributed :: "string \<Rightarrow> string \<Rightarrow> string" where
  "attributed who text = who @ ''> '' @ text @ nl"

subsection \<open>A small server\<close>

text \<open>
  Two clients: \<open>a:1\<close>, which has taken the nickname \<open>bob\<close>, and \<open>b:2\<close>, which has none.
\<close>

definition connA :: conn where "connA = Conn 1 ''a:1''"
definition connB :: conn where "connB = Conn 2 ''b:2''"

definition pool_ab :: ConnectionPool where
  "pool_ab = \<lparr>connections = [(''a:1'', connA), (''b:2'', connB)],
              nicks = [''a:1'' \<mapsto> ''bob''],
              rnicks = [''bob'' \<mapsto> ''a:1'']\<rparr>"

text \<open>The same server after \<open>a:1\<close> has disconnected, as \<open>Run\<close> leaves it.\<close>

definition pool_b :: ConnectionPool where
  "pool_b = \<lparr>connections = [(''b:2'', connB)],
             nicks = [''a:1'' \<mapsto> ''bob''],
             rnicks = [''bob'' \<mapsto> ''a:1'']\<rparr>"

text \<open>The small server after \<open>a:1\<close> has changed its nickname from \<open>bob\<close> to \<open>alice\<close>.\<close>

definition pool_ab_alice :: ConnectionPool where
  "pool_ab_alice = \<lparr>connections = [(''a:1'', connA), (''b:2'', connB)],
                    nicks = [''a:1'' \<mapsto> ''alice''],
                    rnicks = [''bob'' \<mapsto> ''a:1'', ''alice'' \<mapsto> ''a:1'']\<rparr>"

text \<open>A second connection from the remote address \<open>a:1\<close>.\<close>

definition connA' :: conn where "connA' = Conn 3 ''a:1''"

section \<open>Properties\<close>

subsection \<open>Splitting and joining\<close>

lemma Split_not_Nil: "strings_Split s \<noteq> []"
  by (induction s) (auto split: list.splits)

lemma Split_no_space: "sp \<notin> set w \<Longrightarrow> strings_Split w = [w]"
  by (induction w) auto

lemma Split_token: "sp \<notin> set w \<Longrightarrow> strings_Split (w @ sp # rest) = w # strings_Split rest"
  by (induction w) auto

lemma Join_Cons: "xs \<noteq> [] \<Longrightarrow> strings_Join (x # xs) sep = x @ sep @ strings_Join xs sep"
  by (cases xs) auto

lemma Join_Split: "strings_Join (strings_Split s) '' '' = s"
proof (induction s)
  case Nil
  show ?case by simp
next
  case (Cons c cs)
  show ?case
  proof (cases "c = sp")
    case True
    with Cons show ?thesis by (simp add: Join_Cons Split_not_Nil)
  next
    case False
    obtain w ws where sw: "strings_Split cs = w # ws"
      using Split_not_Nil [of cs] by (cases "strings_Split cs") auto
    with Cons False show ?thesis by (cases ws) auto
  qed
qed

lemma Split_nick: "sp \<notin> set new \<Longrightarrow> strings_Split (''/nick '' @ new) = [''/nick'', new]"
  using Split_token [of "''/nick''" new] by (simp add: Split_no_space)

lemma Split_privmsg:
  "sp \<notin> set target \<Longrightarrow>
   strings_Split (''/privmsg '' @ target @ '' '' @ text) = ''/privmsg'' # target # strings_Split text"
  using Split_token [of "''/privmsg''" "target @ '' '' @ text"] Split_token [of target "text"]
  by simp

subsection \<open>The branches of \<open>handleCommand\<close>\<close>

text \<open>
  One equation for each way through \<open>handleCommand\<close>, by the words of the line.
\<close>

lemma handleCommand_nick_bare:
  "strings_Split (message m) = [''/nick''] \<Longrightarrow> handleCommand pool m = Inl IndexOutOfRange"
  by (simp add: handleCommand_def getNames_def Let_def)

lemma handleCommand_nick_spaces:
  "strings_Split (message m) = ''/nick'' # p # q # ps \<Longrightarrow>
   handleCommand pool m =
     Inr (pool, [Write (connection m)
       (''Nickname '' @ sq @ strings_Join (p # q # ps) '' '' @ sq @ '' cannot have spaces in'' @ nl)])"
  by (simp add: handleCommand_def getNames_def Let_def)

lemma handleCommand_nick_taken:
  "strings_Split (message m) = [''/nick'', new] \<Longrightarrow>
   connectionFromNickOrName pool new = Some remote \<Longrightarrow>
   handleCommand pool m =
     Inr (pool,
       [Write (connection m)
          (''Nickname '' @ sq @ new @ sq @ '' is already taken by '' @ RemoteAddr remote @ nl),
        Write remote
          (''User '' @ sq @ RemoteAddr (connection m) @ sq @ '' tried to steal your nickname ''
             @ sq @ new @ sq @ nl)])"
  by (simp add: handleCommand_def getNames_def Let_def)

lemma handleCommand_nick_free:
  "strings_Split (message m) = [''/nick'', new] \<Longrightarrow>
   connectionFromNickOrName pool new = None \<Longrightarrow>
   handleCommand pool m =
     Inr (pool\<lparr>nicks := (nicks pool)(RemoteAddr (connection m) \<mapsto> new),
               rnicks := (rnicks pool)(new \<mapsto> RemoteAddr (connection m))\<rparr>,
          sendAll pool (RemoteAddr (connection m))
            (''Nickname changed from '' @ sq @ snd (getNames pool m) @ sq @ '' to ''
               @ sq @ new @ sq))"
  by (simp add: handleCommand_def getNames_def Let_def sendAll_def)

lemma handleCommand_privmsg_bare:
  "strings_Split (message m) = [''/privmsg''] \<Longrightarrow> handleCommand pool m = Inl IndexOutOfRange"
  by (simp add: handleCommand_def getNames_def Let_def)

lemma handleCommand_privmsg:
  "strings_Split (message m) = ''/privmsg'' # rnick # rest \<Longrightarrow>
   handleCommand pool m =
     Inr (pool,
       case connectionFromNickOrName pool rnick of
         None \<Rightarrow> [Write (connection m)
                    (''Couldn'' @ sq @ ''t find a person named '' @ sq @ rnick @ sq @ nl)]
       | Some remote \<Rightarrow>
           if remote = connection m
           then [Write (connection m) (''You can'' @ sq @ ''t privmsg yourself'' @ nl)]
           else [Write remote (snd (getNames pool m) @ '' (private)> '' @ strings_Join rest '' '' @ nl),
                 Write (connection m) (''Message sent'' @ nl)])"
  by (simp add: handleCommand_def getNames_def Let_def split: option.splits)

lemma handleCommand_who:
  "strings_Split (message m) = ''/who'' # parts \<Longrightarrow>
   handleCommand pool m =
     Inr (pool, [Write (connection m)
       (strings_Join (map (who_line pool m) (connections pool)) nl @ nl)])"
  by (simp add: handleCommand_def getNames_def Let_def)

lemma handleCommand_unknown:
  "strings_Split (message m) = cmd # parts \<Longrightarrow>
   cmd \<noteq> ''/nick'' \<Longrightarrow> cmd \<noteq> ''/privmsg'' \<Longrightarrow> cmd \<noteq> ''/who'' \<Longrightarrow>
   handleCommand pool m = Inr (pool, [Write (connection m) (''Unknown command '' @ cmd @ nl)])"
  by (simp add: handleCommand_def getNames_def Let_def)

lemma handleCommand_cases:
  assumes h: "handleCommand pool m = Inr (pool', out)"
  shows "pool' = pool
     \<or> (\<exists>new. connectionFromNickOrName pool new = None
           \<and> pool' = pool\<lparr>nicks := (nicks pool)(RemoteAddr (connection m) \<mapsto> new),
                          rnicks := (rnicks pool)(new \<mapsto> RemoteAddr (connection m))\<rparr>)"
proof -
  obtain cmd parts where s: "strings_Split (message m) = cmd # parts"
    using Split_not_Nil [of "message m"] by (cases "strings_Split (message m)") auto
  consider (nick) "cmd = ''/nick''" | (privmsg) "cmd \<noteq> ''/nick''" "cmd = ''/privmsg''"
    | (who) "cmd = ''/who''" | (unknown) "cmd \<noteq> ''/nick''" "cmd \<noteq> ''/privmsg''" "cmd \<noteq> ''/who''"
    by blast
  then show ?thesis
  proof cases
    case nick
    show ?thesis
    proof (cases parts)
      case Nil
      with s nick h show ?thesis by (simp add: handleCommand_nick_bare)
    next
      case (Cons new rest)
      show ?thesis
      proof (cases rest)
        case Nil
        with s nick Cons have s': "strings_Split (message m) = [''/nick'', new]" by simp
        show ?thesis
        proof (cases "connectionFromNickOrName pool new")
          case None
          from handleCommand_nick_free [OF s' None] h None show ?thesis by auto
        next
          case (Some remote)
          from handleCommand_nick_taken [OF s' Some] h show ?thesis by simp
        qed
      next
        case (Cons q ps)
        with s nick \<open>parts = new # rest\<close>
        have "strings_Split (message m) = ''/nick'' # new # q # ps" by simp
        from handleCommand_nick_spaces [OF this] h show ?thesis by simp
      qed
    qed
  next
    case privmsg
    show ?thesis
    proof (cases parts)
      case Nil
      with s privmsg h show ?thesis by (simp add: handleCommand_privmsg_bare)
    next
      case (Cons rnick rest)
      with s privmsg have "strings_Split (message m) = ''/privmsg'' # rnick # rest" by simp
      from handleCommand_privmsg [OF this] h show ?thesis by simp
    qed
  next
    case who
    with s have "strings_Split (message m) = ''/who'' # parts" by simp
    from handleCommand_who [OF this] h show ?thesis by simp
  next
    case unknown
    from handleCommand_unknown [OF s unknown] h show ?thesis by simp
  qed
qed

subsection \<open>The states the server reaches\<close>

text \<open>
  The roster of a new pool is well formed and every turn of \<open>Run\<close> keeps it so; the small
  server is the state after two clients have connected and the first has taken the
  nickname \<open>bob\<close>, and the server without \<open>a:1\<close> is the state after that client has then
  disconnected.
\<close>

lemma roster_wf_new: "roster_wf newConnectionPool"
  by (simp add: roster_wf_def newConnectionPool_def)

lemma set_update_cases:
  "(n, c) \<in> set (AList.update k v al) \<Longrightarrow> (n, c) = (k, v) \<or> (n, c) \<in> set al"
  by (induction al) (auto split: if_splits)

lemma roster_wf_step:
  assumes wf: "roster_wf pool" and step: "Run_step pool e = Inr (pool', out)"
  shows "roster_wf pool'"
proof (cases e)
  case (Register c)
  with step have p: "connections pool' = AList.update (RemoteAddr c) c (connections pool)"
    by auto
  from wf have "distinct (map fst (connections pool'))"
    unfolding p by (simp add: roster_wf_def AList.distinct_update)
  moreover from wf have "list_all (\<lambda>(n, c). RemoteAddr c = n) (connections pool')"
    unfolding p roster_wf_def list_all_iff by (auto dest: set_update_cases)
  ultimately show ?thesis by (simp add: roster_wf_def)
next
  case (Unregister c)
  with step have p: "connections pool' = AList.delete (RemoteAddr c) (connections pool)"
    by auto
  from wf have "distinct (map fst (connections pool'))"
    unfolding p by (simp add: roster_wf_def AList.distinct_delete)
  moreover from wf have "list_all (\<lambda>(n, c). RemoteAddr c = n) (connections pool')"
    unfolding p roster_wf_def list_all_iff by (auto simp: AList.delete_eq)
  ultimately show ?thesis by (simp add: roster_wf_def)
next
  case (Inbound m)
  have "connections pool' = connections pool"
  proof (cases "HasPrefix_slash (message m)")
    case True
    with step Inbound have "handleCommand pool m = Inr (pool', out)" by simp
    from handleCommand_cases [OF this] show ?thesis by auto
  next
    case False
    with step Inbound show ?thesis by simp
  qed
  with wf show ?thesis by (simp add: roster_wf_def)
next
  case Shutdown
  with step wf show ?thesis by simp
qed

lemma roster_wf_Run:
  "roster_wf pool \<Longrightarrow> Run pool es = Inr (pool', out) \<Longrightarrow> roster_wf pool'"
proof (induction es arbitrary: pool out)
  case Nil
  then show ?case by simp
next
  case (Cons e es)
  from Cons.prems(2) obtain p1 o1 where s1: "Run_step pool e = Inr (p1, o1)"
    by (cases "Run_step pool e") auto
  from roster_wf_step [OF Cons.prems(1) s1] have wf1: "roster_wf p1" .
  show ?case
  proof (cases "e = Shutdown")
    case True
    with Cons.prems(2) s1 wf1 show ?thesis by simp
  next
    case False
    with Cons.prems(2) s1 obtain o2 where "Run p1 es = Inr (pool', o2)"
      by (cases "Run p1 es") auto
    from Cons.IH [OF wf1 this] show ?thesis .
  qed
qed

lemma pool_ab_reachable:
  "Run newConnectionPool
     [Register connA, Register connB, Inbound \<lparr>connection = connA, message = ''/nick bob''\<rparr>] =
   Inr (pool_ab,
        [Write connA (self_framed (''Nickname changed from '' @ sq @ ''a:1'' @ sq @ '' to '' @ sq @ ''bob'' @ sq)),
         Write connB (attributed ''a:1'' (''Nickname changed from '' @ sq @ ''a:1'' @ sq @ '' to '' @ sq @ ''bob'' @ sq))])"
proof -
  let ?m = "\<lparr>connection = connA, message = ''/nick bob''\<rparr>"
  let ?p = "\<lparr>connections = [(''a:1'', connA), (''b:2'', connB)],
             nicks = Map.empty, rnicks = Map.empty\<rparr>"
  have s: "strings_Split (message ?m) = [''/nick'', ''bob'']" by simp
  have free: "connectionFromNickOrName ?p ''bob'' = None"
    by (simp add: connectionFromNickOrName_def connA_def connB_def)
  have a: "RemoteAddr (connection ?m) = ''a:1''" by (simp add: connA_def)
  have g: "snd (getNames ?p ?m) = ''a:1''"
    by (simp add: getNames_def Let_def connA_def)
  have out: "sendAll ?p ''a:1'' body =
      [Write connA (self_framed body), Write connB (attributed ''a:1'' body)]" for body
    by (simp add: sendAll_def attributed_def self_framed_def)
  have p: "?p\<lparr>nicks := (nicks ?p)(''a:1'' \<mapsto> ''bob''),
              rnicks := (rnicks ?p)(''bob'' \<mapsto> ''a:1'')\<rparr> = pool_ab"
    by (simp add: pool_ab_def)
  have pre: "HasPrefix_slash (message ?m)" by (simp add: HasPrefix_slash_def)
  have hc: "handleCommand ?p ?m =
     Inr (pool_ab,
        [Write connA (self_framed (''Nickname changed from '' @ sq @ ''a:1'' @ sq @ '' to '' @ sq @ ''bob'' @ sq)),
         Write connB (attributed ''a:1'' (''Nickname changed from '' @ sq @ ''a:1'' @ sq @ '' to '' @ sq @ ''bob'' @ sq))])"
    using handleCommand_nick_free [OF s free] unfolding a g out p by simp
  have s1: "Run_step newConnectionPool (Register connA) =
      Inr (\<lparr>connections = [(''a:1'', connA)], nicks = Map.empty, rnicks = Map.empty\<rparr>, [])"
    by (simp add: newConnectionPool_def connA_def)
  have s2: "Run_step \<lparr>connections = [(''a:1'', connA)], nicks = Map.empty, rnicks = Map.empty\<rparr>
              (Register connB) = Inr (?p, [])"
    by (simp add: connB_def)
  have s3: "Run_step ?p (Inbound ?m) = handleCommand ?p ?m"
    using pre by simp
  show ?thesis
    by (simp add: s1 s2 s3 hc del: Run_step.simps)
qed

lemma pool_b_reachable:
  "Run newConnectionPool
     [Register connA, Register connB, Inbound \<lparr>connection = connA, message = ''/nick bob''\<rparr>,
      Unregister connA] =
   Inr (pool_b,
        [Write connA (self_framed (''Nickname changed from '' @ sq @ ''a:1'' @ sq @ '' to '' @ sq @ ''bob'' @ sq)),
         Write connB (attributed ''a:1'' (''Nickname changed from '' @ sq @ ''a:1'' @ sq @ '' to '' @ sq @ ''bob'' @ sq))])"
proof -
  let ?es = "[Register connA, Register connB, Inbound \<lparr>connection = connA, message = ''/nick bob''\<rparr>]"
  have app: "Run pool (es @ [e]) =
      (case Run pool es of Inl err \<Rightarrow> Inl err
       | Inr (p1, o1) \<Rightarrow>
           (case Run_step p1 e of Inl err \<Rightarrow> Inl err | Inr (p2, o2) \<Rightarrow> Inr (p2, o1 @ o2)))"
    if "Shutdown \<notin> set es" for pool es e
    using that by (induction es arbitrary: pool) (auto split: sum.splits)
  have last: "Run_step pool_ab (Unregister connA) = Inr (pool_b, [])"
    by (simp add: pool_ab_def pool_b_def connA_def)
  have "Shutdown \<notin> set ?es" by simp
  from app [OF this, of newConnectionPool "Unregister connA"] show ?thesis
    by (simp add: pool_ab_reachable last del: Run.simps Run_step.simps)
qed

subsection \<open>Idempotence of Unregister\<close>

text \<open>
  C9. Two \<open>Unregister\<close> events for the same connection, one after the other, leave the
  hub in the state that one leaves it in, and an \<open>Unregister\<close> for a remote address that
  has no roster entry leaves the state as it was.
\<close>

theorem unregister_idempotent:
  "Run pool [Unregister c, Unregister c] = Run pool [Unregister c]
   \<and> (map_of (connections pool) (RemoteAddr c) = None
        \<longrightarrow> Run_step pool (Unregister c) = Inr (pool, []))"
  by (simp add: AList.delete_idem map_of_eq_None_iff)

theorem unregister_idempotent_witness:
  "map_of (connections pool_b) (RemoteAddr connA) = None
   \<and> Run_step pool_b (Unregister connA) = Inr (pool_b, [])"
  using unregister_idempotent [of pool_b connA]
  by (simp add: pool_b_def connA_def)

subsection \<open>Unregister and the nickname maps\<close>

text \<open>
  C1, as stated, at the small server: after \<open>a:1\<close> has disconnected, \<open>Run\<close> has removed
  the roster entry, and the forward binding of \<open>a:1\<close> and the reverse binding of \<open>bob\<close>
  are both still there.
\<close>

theorem unregister_keeps_nick_counterexample:
  "Run_step pool_ab (Unregister connA) = Inr (pool_b, [])
   \<and> nicks pool_b ''a:1'' = Some ''bob''
   \<and> rnicks pool_b ''bob'' = Some ''a:1''"
  by (simp add: pool_ab_def pool_b_def connA_def)

text \<open>
  C1, amended. \<open>Unregister\<close> removes the roster entry of the identity and nothing else:
  the other roster entries and both nickname maps are as before and nothing is written.
  Afterwards a nickname whose reverse entry is the identity resolves to no connection,
  and the identity resolves to no connection unless it is itself a key of the reverse map.
\<close>

theorem unregister_roster_only:
  assumes "Run_step pool (Unregister c) = Inr (pool', out)"
  shows "map_of (connections pool') (RemoteAddr c) = None
     \<and> (\<forall>k. k \<noteq> RemoteAddr c \<longrightarrow> map_of (connections pool') k = map_of (connections pool) k)
     \<and> nicks pool' = nicks pool
     \<and> rnicks pool' = rnicks pool
     \<and> out = []
     \<and> (\<forall>n. rnicks pool n = Some (RemoteAddr c) \<longrightarrow> connectionFromNickOrName pool' n = None)
     \<and> (rnicks pool (RemoteAddr c) = None \<longrightarrow> connectionFromNickOrName pool' (RemoteAddr c) = None)"
proof -
  from assms have p: "pool' = pool\<lparr>connections := AList.delete (RemoteAddr c) (connections pool)\<rparr>"
    and o: "out = []" by auto
  have gone: "map_of (connections pool') (RemoteAddr c) = None"
    by (simp add: p AList.delete_conv')
  show ?thesis
    using gone o by (auto simp: p connectionFromNickOrName_def AList.delete_conv')
qed

theorem unregister_roster_only_witness:
  "map_of (connections pool_b) ''a:1'' = None
   \<and> map_of (connections pool_b) ''b:2'' = map_of (connections pool_ab) ''b:2''
   \<and> nicks pool_b = nicks pool_ab
   \<and> rnicks pool_b = rnicks pool_ab
   \<and> rnicks pool_ab ''bob'' = Some ''a:1''
   \<and> connectionFromNickOrName pool_b ''bob'' = None
   \<and> rnicks pool_ab ''a:1'' = None
   \<and> connectionFromNickOrName pool_b ''a:1'' = None"
proof -
  have step: "Run_step pool_ab (Unregister connA) = Inr (pool_b, [])"
    by (simp add: pool_ab_def pool_b_def connA_def)
  have addr: "RemoteAddr connA = ''a:1''" by (simp add: connA_def)
  have r1: "rnicks pool_ab ''bob'' = Some ''a:1''" and r2: "rnicks pool_ab ''a:1'' = None"
    by (simp_all add: pool_ab_def)
  note t = unregister_roster_only [OF step, unfolded addr]
  from t have other: "\<And>k. k \<noteq> ''a:1'' \<Longrightarrow> map_of (connections pool_b) k = map_of (connections pool_ab) k"
    and stale: "\<And>n. rnicks pool_ab n = Some ''a:1'' \<Longrightarrow> connectionFromNickOrName pool_b n = None"
    and self: "rnicks pool_ab ''a:1'' = None \<Longrightarrow> connectionFromNickOrName pool_b ''a:1'' = None"
    by simp_all
  from t have "map_of (connections pool_b) ''a:1'' = None" and "nicks pool_b = nicks pool_ab"
    and "rnicks pool_b = rnicks pool_ab"
    by simp_all
  moreover have "map_of (connections pool_b) ''b:2'' = map_of (connections pool_ab) ''b:2''"
    by (rule other) simp
  moreover note r1 stale [OF r1] r2 self [OF r2]
  ultimately show ?thesis by simp
qed

subsection \<open>The invariant of the nickname binding\<close>









subsection \<open>Commands without an argument\<close>

text \<open>
  \<open>handleCommand\<close> returns for every line except the two that consist of the word
  \<open>/nick\<close> or of the word \<open>/privmsg\<close> alone.
\<close>

lemma handleCommand_panic_iff:
  "handleCommand pool m = Inl e \<longleftrightarrow>
     strings_Split (message m) = [''/nick''] \<or> strings_Split (message m) = [''/privmsg'']"
proof -
  obtain cmd parts where s: "strings_Split (message m) = cmd # parts"
    using Split_not_Nil [of "message m"] by (cases "strings_Split (message m)") auto
  consider (nick) "cmd = ''/nick''" | (privmsg) "cmd \<noteq> ''/nick''" "cmd = ''/privmsg''"
    | (who) "cmd = ''/who''" | (unknown) "cmd \<noteq> ''/nick''" "cmd \<noteq> ''/privmsg''" "cmd \<noteq> ''/who''"
    by blast
  then show ?thesis
  proof cases
    case nick
    show ?thesis
    proof (cases parts)
      case Nil
      with s nick show ?thesis by (cases e) (simp add: handleCommand_nick_bare)
    next
      case (Cons new rest)
      show ?thesis
      proof (cases rest)
        case Nil
        with s nick Cons have s': "strings_Split (message m) = [''/nick'', new]" by simp
        show ?thesis
        proof (cases "connectionFromNickOrName pool new")
          case None
          from handleCommand_nick_free [OF s' None] s' show ?thesis by simp
        next
          case (Some remote)
          from handleCommand_nick_taken [OF s' Some] s' show ?thesis by simp
        qed
      next
        case (Cons q ps)
        with s nick \<open>parts = new # rest\<close>
        have s': "strings_Split (message m) = ''/nick'' # new # q # ps" by simp
        from handleCommand_nick_spaces [OF s'] s' show ?thesis by simp
      qed
    qed
  next
    case privmsg
    show ?thesis
    proof (cases parts)
      case Nil
      with s privmsg show ?thesis by (cases e) (simp add: handleCommand_privmsg_bare)
    next
      case (Cons rnick rest)
      with s privmsg have s': "strings_Split (message m) = ''/privmsg'' # rnick # rest" by simp
      from handleCommand_privmsg [OF s'] s' show ?thesis by simp
    qed
  next
    case who
    with s have s': "strings_Split (message m) = ''/who'' # parts" by simp
    from handleCommand_who [OF s'] s' show ?thesis by simp
  next
    case unknown
    from handleCommand_unknown [OF s unknown] s unknown show ?thesis by simp
  qed
qed

text \<open>
  C3, at the two lines without an argument. The line \<open>/nick\<close> and the line \<open>/privmsg\<close>, from any
  connection and in any state of the pool, make \<open>handleCommand\<close> index the empty slice
  \<open>parts\<close> at 0: the turn of \<open>Run\<close> panics, and so does \<open>Run\<close>, whatever events follow.
\<close>

theorem bare_command_panics:
  "Run_step pool (Inbound \<lparr>connection = c, message = ''/nick''\<rparr>) = Inl IndexOutOfRange
   \<and> Run_step pool (Inbound \<lparr>connection = c, message = ''/privmsg''\<rparr>) = Inl IndexOutOfRange
   \<and> Run pool (Inbound \<lparr>connection = c, message = ''/nick''\<rparr> # es) = Inl IndexOutOfRange
   \<and> Run pool (Inbound \<lparr>connection = c, message = ''/privmsg''\<rparr> # es) = Inl IndexOutOfRange"
  by (simp add: HasPrefix_slash_def handleCommand_nick_bare handleCommand_privmsg_bare)

subsection \<open>Broadcast\<close>

text \<open>
  In a well-formed roster the entry of a registered connection is the one entry under
  its remote address, so \<open>sendAll\<close> with the remote address of the sender frames the
  line for the sender alone as its own. A plain line from a sender that has no nickname
  is delivered that way.
\<close>

lemma getNames_display: "getNames pool m = (RemoteAddr (connection m), display_name pool (connection m))"
  by (simp add: getNames_def display_name_def Let_def split: option.splits)

lemma own_entry:
  assumes wf: "roster_wf pool" and reg: "registered pool c"
    and mem: "(n, c') \<in> set (connections pool)"
  shows "c' = c \<longleftrightarrow> n = RemoteAddr c"
proof
  assume "c' = c"
  with wf mem show "n = RemoteAddr c"
    by (auto simp: roster_wf_def list_all_iff)
next
  assume "n = RemoteAddr c"
  with wf mem have "map_of (connections pool) (RemoteAddr c) = Some c'"
    by (simp add: roster_wf_def)
  with reg show "c' = c" by (simp add: registered_def)
qed

lemma sendAll_frames:
  assumes wf: "roster_wf pool" and reg: "registered pool c"
  shows "sendAll pool (RemoteAddr c) body =
     map (\<lambda>(n, c'). Write c' (if c' = c then self_framed body
                               else attributed (RemoteAddr c) body))
         (connections pool)"
  unfolding sendAll_def
proof (rule map_cong [OF refl])
  fix e assume mem: "e \<in> set (connections pool)"
  obtain n c' where e: "e = (n, c')" by (cases e)
  from own_entry [OF wf reg] mem e have "c' = c \<longleftrightarrow> n = RemoteAddr c" by simp
  then show "(case e of (n, c') \<Rightarrow>
                if n = RemoteAddr c then Write c' (''> '' @ body @ nl)
                else Write c' (RemoteAddr c @ ''> '' @ body @ nl)) =
             (case e of (n, c') \<Rightarrow>
                Write c' (if c' = c then self_framed body else attributed (RemoteAddr c) body))"
    by (simp add: e self_framed_def attributed_def)
qed

lemma one_entry:
  "distinct (map fst xs) \<Longrightarrow> map_of xs k = Some v \<Longrightarrow>
   length (filter (\<lambda>(n, c'). n = k) xs) = 1"
proof (induction xs)
  case Nil
  then show ?case by simp
next
  case (Cons x xs)
  obtain n c' where x: "x = (n, c')" by (cases x)
  show ?case
  proof (cases "n = k")
    case True
    with Cons.prems x have "k \<notin> fst ` set xs" by simp
    then have "filter (\<lambda>(n, c'). n = k) xs = []"
      by (force simp: filter_empty_conv)
    with True x show ?thesis by simp
  next
    case False
    with Cons x show ?thesis by simp
  qed
qed

lemma own_entry_once:
  assumes wf: "roster_wf pool" and reg: "registered pool c"
  shows "length (filter (\<lambda>(n, c'). c' = c) (connections pool)) = 1"
proof -
  have "filter (\<lambda>(n, c'). c' = c) (connections pool)
      = filter (\<lambda>(n, c'). n = RemoteAddr c) (connections pool)"
    by (rule filter_cong [OF refl]) (use own_entry [OF wf reg] in auto)
  with one_entry [of "connections pool" "RemoteAddr c" c] wf reg
  show ?thesis by (simp add: roster_wf_def registered_def)
qed

lemma broadcast_without_nickname:
  assumes wf: "roster_wf pool" and reg: "registered pool c"
    and plain: "\<not> HasPrefix_slash body"
    and nonick: "nicks pool (RemoteAddr c) = None"
  shows "Run_step pool (Inbound \<lparr>connection = c, message = body\<rparr>) =
     Inr (pool, map (\<lambda>(n, c'). Write c' (if c' = c then self_framed body
                                           else attributed (RemoteAddr c) body))
                    (connections pool))"
  using plain nonick sendAll_frames [OF wf reg, of body]
  by (simp add: handleMessage_def getNames_display display_name_def)

text \<open>
  C4, at the small server. The client \<open>a:1\<close>, whose nickname is \<open>bob\<close>, sends the plain
  line \<open>hi\<close>: \<open>handleMessage\<close> gives \<open>sendAll\<close> the nickname, \<open>sendAll\<close> compares it with
  the roster keys, and the sender gets the line attributed to \<open>bob\<close>, as \<open>b:2\<close> does, and
  no self-framed line.
\<close>

theorem broadcast_with_nickname:
  "Run_step pool_ab (Inbound \<lparr>connection = connA, message = ''hi''\<rparr>) =
     Inr (pool_ab, [Write connA (attributed ''bob'' ''hi''), Write connB (attributed ''bob'' ''hi'')])
   \<and> attributed ''bob'' ''hi'' \<noteq> self_framed ''hi''"
  by (simp add: HasPrefix_slash_def handleMessage_def getNames_def sendAll_def
        pool_ab_def connA_def connB_def attributed_def self_framed_def)

subsection \<open>The command \<open>/nick\<close>\<close>

text \<open>
  An argument of two or more words is refused with a notice to the sender, and a name
  that resolves to a connection is refused with a notice to the sender and one to that
  connection; the pool is unchanged in both cases.
\<close>

lemma nick_with_spaces_rejected:
  assumes "sp \<notin> set a"
  shows "Run_step pool (Inbound \<lparr>connection = c, message = ''/nick '' @ a @ '' '' @ rest\<rparr>) =
     Inr (pool, [Write c (''Nickname '' @ sq @ a @ '' '' @ rest @ sq @ '' cannot have spaces in'' @ nl)])"
proof -
  let ?m = "\<lparr>connection = c, message = ''/nick '' @ a @ '' '' @ rest\<rparr>"
  obtain q ps where r: "strings_Split rest = q # ps"
    using Split_not_Nil [of rest] by (cases "strings_Split rest") auto
  have "strings_Split (''/nick '' @ a @ '' '' @ rest) = ''/nick'' # a # strings_Split rest"
    using Split_token [of "''/nick''" "a @ '' '' @ rest"] Split_token [OF assms, of rest] by simp
  with r have s: "strings_Split (message ?m) = ''/nick'' # a # q # ps" by simp
  have "strings_Join (a # q # ps) '' '' = a @ '' '' @ strings_Join (strings_Split rest) '' ''"
    using r by simp
  then have j: "strings_Join (a # q # ps) '' '' = a @ '' '' @ rest"
    by (simp only: Join_Split)
  have pre: "HasPrefix_slash (message ?m)" by (simp add: HasPrefix_slash_def)
  from handleCommand_nick_spaces [OF s, of pool] have
    "handleCommand pool ?m = Inr (pool, [Write c (''Nickname '' @ sq @ (a @ '' '' @ rest) @ sq @ '' cannot have spaces in'' @ nl)])"
    unfolding j by simp
  with pre show ?thesis by simp
qed

lemma nick_collision_rejected:
  assumes nosp: "sp \<notin> set new"
    and taken: "connectionFromNickOrName pool new = Some remote"
  shows "Run_step pool (Inbound \<lparr>connection = c, message = ''/nick '' @ new\<rparr>) =
     Inr (pool,
       [Write c (''Nickname '' @ sq @ new @ sq @ '' is already taken by '' @ RemoteAddr remote @ nl),
        Write remote (''User '' @ sq @ RemoteAddr c @ sq @ '' tried to steal your nickname ''
                        @ sq @ new @ sq @ nl)])"
proof -
  let ?m = "\<lparr>connection = c, message = ''/nick '' @ new\<rparr>"
  have s: "strings_Split (message ?m) = [''/nick'', new]"
    using Split_nick [OF nosp] by simp
  have pre: "HasPrefix_slash (message ?m)" by (simp add: HasPrefix_slash_def)
  from handleCommand_nick_taken [OF s taken] pre show ?thesis by simp
qed

text \<open>
  The line \<open>/nick\<close> followed by one space has the empty string as its argument. The
  check on the number of words lets it through: from \<open>b:2\<close> at the small server the
  empty nickname is bound in both maps and the change is broadcast.
\<close>

lemma nick_empty_argument_accepted:
  "Run_step pool_ab (Inbound \<lparr>connection = connB, message = ''/nick ''\<rparr>) =
     Inr (pool_ab\<lparr>nicks := (nicks pool_ab)(''b:2'' \<mapsto> []),
                  rnicks := (rnicks pool_ab)([] \<mapsto> ''b:2'')\<rparr>,
          [Write connA (attributed ''b:2'' (''Nickname changed from '' @ sq @ ''b:2'' @ sq @ '' to '' @ sq @ sq)),
           Write connB (self_framed (''Nickname changed from '' @ sq @ ''b:2'' @ sq @ '' to '' @ sq @ sq))])"
proof -
  let ?m = "\<lparr>connection = connB, message = ''/nick ''\<rparr>"
  have s: "strings_Split (message ?m) = [''/nick'', []]" by simp
  have free: "connectionFromNickOrName pool_ab [] = None"
    by (simp add: connectionFromNickOrName_def pool_ab_def)
  have a: "RemoteAddr (connection ?m) = ''b:2''" by (simp add: connB_def)
  have g: "snd (getNames pool_ab ?m) = ''b:2''"
    by (simp add: getNames_def Let_def pool_ab_def connB_def)
  have out: "sendAll pool_ab ''b:2'' body =
      [Write connA (attributed ''b:2'' body), Write connB (self_framed body)]" for body
    by (simp add: sendAll_def pool_ab_def attributed_def self_framed_def)
  have pre: "HasPrefix_slash (message ?m)" by (simp add: HasPrefix_slash_def)
  have "handleCommand pool_ab ?m =
     Inr (pool_ab\<lparr>nicks := (nicks pool_ab)(''b:2'' \<mapsto> []),
                  rnicks := (rnicks pool_ab)([] \<mapsto> ''b:2'')\<rparr>,
          [Write connA (attributed ''b:2'' (''Nickname changed from '' @ sq @ ''b:2'' @ sq @ '' to '' @ sq @ sq)),
           Write connB (self_framed (''Nickname changed from '' @ sq @ ''b:2'' @ sq @ '' to '' @ sq @ sq))])"
    using handleCommand_nick_free [OF s free] unfolding a g out by simp
  with pre show ?thesis by simp
qed

text \<open>
  A one-word name that resolves to no connection is accepted, whatever the maps hold
  for it.
\<close>

lemma nick_accepted:
  assumes nosp: "sp \<notin> set new"
    and free: "connectionFromNickOrName pool new = None"
  shows "Run_step pool (Inbound \<lparr>connection = c, message = ''/nick '' @ new\<rparr>) =
     Inr (pool\<lparr>nicks := (nicks pool)(RemoteAddr c \<mapsto> new),
               rnicks := (rnicks pool)(new \<mapsto> RemoteAddr c)\<rparr>,
          sendAll pool (RemoteAddr c)
            (''Nickname changed from '' @ sq @ display_name pool c @ sq @ '' to ''
               @ sq @ new @ sq))"
proof -
  let ?m = "\<lparr>connection = c, message = ''/nick '' @ new\<rparr>"
  have s: "strings_Split (message ?m) = [''/nick'', new]"
    using Split_nick [OF nosp] by simp
  have pre: "HasPrefix_slash (message ?m)" by (simp add: HasPrefix_slash_def)
  have gn: "snd (getNames pool ?m) = display_name pool c" by (simp add: getNames_display)
  have ad: "RemoteAddr (connection ?m) = RemoteAddr c" by simp
  have rs: "Run_step pool (Inbound ?m) = handleCommand pool ?m"
    using pre by simp
  show ?thesis
    unfolding rs using handleCommand_nick_free [OF s free] unfolding gn ad .
qed

text \<open>
  C5, as stated, at two inputs. At the server without \<open>a:1\<close> the name \<open>bob\<close> is bound to
  \<open>a:1\<close> in the reverse map, a different identity from \<open>b:2\<close>, and \<open>/nick bob\<close> from \<open>b:2\<close>
  is accepted, since \<open>bob\<close> resolves to no connection. At the small server a name with a
  tab inside is accepted from \<open>b:2\<close>, since the line is split at the space character
  only.
\<close>

theorem nick_claim_counterexample:
  "rnicks pool_b ''bob'' = Some ''a:1''
   \<and> RemoteAddr connB \<noteq> ''a:1''
   \<and> Run_step pool_b (Inbound \<lparr>connection = connB, message = ''/nick bob''\<rparr>) =
       Inr (pool_b\<lparr>nicks := (nicks pool_b)(''b:2'' \<mapsto> ''bob''),
                   rnicks := (rnicks pool_b)(''bob'' \<mapsto> ''b:2'')\<rparr>,
            [Write connB (self_framed (''Nickname changed from '' @ sq @ ''b:2'' @ sq @ '' to '' @ sq @ ''bob'' @ sq))])
   \<and> Run_step pool_ab (Inbound \<lparr>connection = connB, message = ''/nick big'' @ [CHR 0x09] @ ''bird''\<rparr>) =
       Inr (pool_ab\<lparr>nicks := (nicks pool_ab)(''b:2'' \<mapsto> ''big'' @ [CHR 0x09] @ ''bird''),
                    rnicks := (rnicks pool_ab)(''big'' @ [CHR 0x09] @ ''bird'' \<mapsto> ''b:2'')\<rparr>,
            [Write connA (attributed ''b:2'' (''Nickname changed from '' @ sq @ ''b:2'' @ sq @ '' to ''
                                               @ sq @ ''big'' @ [CHR 0x09] @ ''bird'' @ sq)),
             Write connB (self_framed (''Nickname changed from '' @ sq @ ''b:2'' @ sq @ '' to ''
                                         @ sq @ ''big'' @ [CHR 0x09] @ ''bird'' @ sq))])"
proof -
  have b: "RemoteAddr connB = ''b:2''" by (simp add: connB_def)
  have stale: "Run_step pool_b (Inbound \<lparr>connection = connB, message = ''/nick bob''\<rparr>) =
       Inr (pool_b\<lparr>nicks := (nicks pool_b)(''b:2'' \<mapsto> ''bob''),
                   rnicks := (rnicks pool_b)(''bob'' \<mapsto> ''b:2'')\<rparr>,
            [Write connB (self_framed (''Nickname changed from '' @ sq @ ''b:2'' @ sq @ '' to '' @ sq @ ''bob'' @ sq))])"
  proof -
    have nosp: "sp \<notin> set ''bob''" by simp
    have free: "connectionFromNickOrName pool_b ''bob'' = None"
      by (simp add: connectionFromNickOrName_def pool_b_def)
    have d: "display_name pool_b connB = ''b:2''"
      by (simp add: display_name_def pool_b_def connB_def)
    have out: "sendAll pool_b ''b:2'' body = [Write connB (self_framed body)]" for body
      by (simp add: sendAll_def pool_b_def self_framed_def)
    from nick_accepted [OF nosp free, of connB] show ?thesis
      unfolding b d out by simp
  qed
  have tab: "Run_step pool_ab (Inbound \<lparr>connection = connB, message = ''/nick big'' @ [CHR 0x09] @ ''bird''\<rparr>) =
       Inr (pool_ab\<lparr>nicks := (nicks pool_ab)(''b:2'' \<mapsto> ''big'' @ [CHR 0x09] @ ''bird''),
                    rnicks := (rnicks pool_ab)(''big'' @ [CHR 0x09] @ ''bird'' \<mapsto> ''b:2'')\<rparr>,
            [Write connA (attributed ''b:2'' (''Nickname changed from '' @ sq @ ''b:2'' @ sq @ '' to ''
                                               @ sq @ ''big'' @ [CHR 0x09] @ ''bird'' @ sq)),
             Write connB (self_framed (''Nickname changed from '' @ sq @ ''b:2'' @ sq @ '' to ''
                                         @ sq @ ''big'' @ [CHR 0x09] @ ''bird'' @ sq))])"
  proof -
    have nosp: "sp \<notin> set (''big'' @ [CHR 0x09] @ ''bird'')" by simp
    have free: "connectionFromNickOrName pool_ab (''big'' @ [CHR 0x09] @ ''bird'') = None"
      by (simp add: connectionFromNickOrName_def pool_ab_def)
    have d: "display_name pool_ab connB = ''b:2''"
      by (simp add: display_name_def pool_ab_def connB_def)
    have out: "sendAll pool_ab ''b:2'' body =
        [Write connA (attributed ''b:2'' body), Write connB (self_framed body)]" for body
      by (simp add: sendAll_def pool_ab_def self_framed_def attributed_def)
    from nick_accepted [OF nosp free, of connB] show ?thesis
      unfolding b d out by simp
  qed
  have r: "rnicks pool_b ''bob'' = Some ''a:1''" by (simp add: pool_b_def)
  have ne: "RemoteAddr connB \<noteq> ''a:1''" by (simp add: connB_def)
  show ?thesis
    by (intro conjI) (rule r ne stale tab)+
qed

text \<open>
  C5, amended. In a well-formed roster \<open>/nick\<close> is refused, with the pool unchanged, when
  its argument contains a space character, with a notice to the sender only, and when
  its one-word argument is bound in the reverse map to a different identity that is in
  the roster: then the sender is told that the name is taken, with the remote address of
  the owner, and the owner is told of the attempt. A one-word argument bound to an
  identity that is not in the roster is accepted: both bindings are installed for the
  sender and the change is broadcast.
\<close>

theorem nick_rejected:
  assumes wf: "roster_wf pool"
  shows "(sp \<notin> set a \<longrightarrow>
            Run_step pool (Inbound \<lparr>connection = c, message = ''/nick '' @ a @ '' '' @ rest\<rparr>) =
              Inr (pool, [Write c (''Nickname '' @ sq @ a @ '' '' @ rest @ sq
                                     @ '' cannot have spaces in'' @ nl)]))
       \<and> (sp \<notin> set new \<and> rnicks pool new = Some owner \<and> owner \<noteq> RemoteAddr c
            \<and> map_of (connections pool) owner = Some remote \<longrightarrow>
            Run_step pool (Inbound \<lparr>connection = c, message = ''/nick '' @ new\<rparr>) =
              Inr (pool,
                [Write c (''Nickname '' @ sq @ new @ sq @ '' is already taken by '' @ owner @ nl),
                 Write remote (''User '' @ sq @ RemoteAddr c @ sq
                                 @ '' tried to steal your nickname '' @ sq @ new @ sq @ nl)]))
       \<and> (sp \<notin> set new \<and> rnicks pool new = Some owner
            \<and> map_of (connections pool) owner = None \<longrightarrow>
            Run_step pool (Inbound \<lparr>connection = c, message = ''/nick '' @ new\<rparr>) =
              Inr (pool\<lparr>nicks := (nicks pool)(RemoteAddr c \<mapsto> new),
                        rnicks := (rnicks pool)(new \<mapsto> RemoteAddr c)\<rparr>,
                   sendAll pool (RemoteAddr c)
                     (''Nickname changed from '' @ sq @ display_name pool c @ sq @ '' to ''
                        @ sq @ new @ sq)))"
proof (intro conjI impI)
  assume "sp \<notin> set a"
  then show "Run_step pool (Inbound \<lparr>connection = c, message = ''/nick '' @ a @ '' '' @ rest\<rparr>) =
      Inr (pool, [Write c (''Nickname '' @ sq @ a @ '' '' @ rest @ sq
                             @ '' cannot have spaces in'' @ nl)])"
    by (rule nick_with_spaces_rejected)
next
  assume h: "sp \<notin> set new \<and> rnicks pool new = Some owner \<and> owner \<noteq> RemoteAddr c
      \<and> map_of (connections pool) owner = Some remote"
  then have taken: "connectionFromNickOrName pool new = Some remote"
    by (simp add: connectionFromNickOrName_def)
  from h have "(owner, remote) \<in> set (connections pool)"
    by (auto dest: map_of_SomeD)
  with wf have addr: "RemoteAddr remote = owner"
    by (auto simp: roster_wf_def list_all_iff)
  from h have nosp: "sp \<notin> set new" by simp
  from nick_collision_rejected [OF nosp taken, of c]
  show "Run_step pool (Inbound \<lparr>connection = c, message = ''/nick '' @ new\<rparr>) =
      Inr (pool,
        [Write c (''Nickname '' @ sq @ new @ sq @ '' is already taken by '' @ owner @ nl),
         Write remote (''User '' @ sq @ RemoteAddr c @ sq
                         @ '' tried to steal your nickname '' @ sq @ new @ sq @ nl)])"
    unfolding addr .
next
  assume h: "sp \<notin> set new \<and> rnicks pool new = Some owner
      \<and> map_of (connections pool) owner = None"
  then have free: "connectionFromNickOrName pool new = None"
    by (simp add: connectionFromNickOrName_def)
  from h have nosp: "sp \<notin> set new" by simp
  from nick_accepted [OF nosp free]
  show "Run_step pool (Inbound \<lparr>connection = c, message = ''/nick '' @ new\<rparr>) =
      Inr (pool\<lparr>nicks := (nicks pool)(RemoteAddr c \<mapsto> new),
                rnicks := (rnicks pool)(new \<mapsto> RemoteAddr c)\<rparr>,
           sendAll pool (RemoteAddr c)
             (''Nickname changed from '' @ sq @ display_name pool c @ sq @ '' to ''
                @ sq @ new @ sq))" .
qed

theorem nick_rejected_witness:
  "roster_wf pool_ab
   \<and> sp \<notin> set ''big''
   \<and> Run_step pool_ab (Inbound \<lparr>connection = connB, message = ''/nick big bird''\<rparr>) =
       Inr (pool_ab, [Write connB (''Nickname '' @ sq @ ''big bird'' @ sq
                                     @ '' cannot have spaces in'' @ nl)])
   \<and> sp \<notin> set ''bob'' \<and> rnicks pool_ab ''bob'' = Some ''a:1'' \<and> ''a:1'' \<noteq> RemoteAddr connB
   \<and> map_of (connections pool_ab) ''a:1'' = Some connA
   \<and> Run_step pool_ab (Inbound \<lparr>connection = connB, message = ''/nick bob''\<rparr>) =
       Inr (pool_ab,
         [Write connB (''Nickname '' @ sq @ ''bob'' @ sq @ '' is already taken by a:1'' @ nl),
          Write connA (''User '' @ sq @ ''b:2'' @ sq
                         @ '' tried to steal your nickname '' @ sq @ ''bob'' @ sq @ nl)])
   \<and> roster_wf pool_b \<and> rnicks pool_b ''bob'' = Some ''a:1''
   \<and> map_of (connections pool_b) ''a:1'' = None
   \<and> Run_step pool_b (Inbound \<lparr>connection = connB, message = ''/nick bob''\<rparr>) =
       Inr (pool_b\<lparr>nicks := (nicks pool_b)(''b:2'' \<mapsto> ''bob''),
                   rnicks := (rnicks pool_b)(''bob'' \<mapsto> ''b:2'')\<rparr>,
            [Write connB (self_framed (''Nickname changed from '' @ sq @ ''b:2'' @ sq @ '' to '' @ sq @ ''bob'' @ sq))])"
proof -
  have wf: "roster_wf pool_ab" by (simp add: roster_wf_def pool_ab_def connA_def connB_def)
  have wfb: "roster_wf pool_b" by (simp add: roster_wf_def pool_b_def connB_def)
  have h1: "sp \<notin> set ''big''" by simp
  have h2: "sp \<notin> set ''bob''" by simp
  have h3: "rnicks pool_ab ''bob'' = Some ''a:1''" by (simp add: pool_ab_def)
  have h4: "map_of (connections pool_ab) ''a:1'' = Some connA" by (simp add: pool_ab_def)
  have h5: "''a:1'' \<noteq> RemoteAddr connB" by (simp add: connB_def)
  have h6: "rnicks pool_b ''bob'' = Some ''a:1''" by (simp add: pool_b_def)
  have h7: "map_of (connections pool_b) ''a:1'' = None" by (simp add: pool_b_def)
  have b: "RemoteAddr connB = ''b:2''" by (simp add: connB_def)
  have d: "display_name pool_b connB = ''b:2''"
    by (simp add: display_name_def pool_b_def connB_def)
  have out: "sendAll pool_b ''b:2'' body = [Write connB (self_framed body)]" for body
    by (simp add: sendAll_def pool_b_def self_framed_def)
  note t = nick_rejected [OF wf, of "''big''" connB "''bird''" "''bob''" "''a:1''" connA]
  note u = nick_rejected [OF wfb, of "''big''" connB "''bird''" "''bob''" "''a:1''" connA]
  from t h1 have r1: "Run_step pool_ab (Inbound \<lparr>connection = connB, message = ''/nick big bird''\<rparr>) =
       Inr (pool_ab, [Write connB (''Nickname '' @ sq @ ''big bird'' @ sq
                                     @ '' cannot have spaces in'' @ nl)])"
    by simp
  from t h2 h3 h4 h5 have r2: "Run_step pool_ab (Inbound \<lparr>connection = connB, message = ''/nick bob''\<rparr>) =
       Inr (pool_ab,
         [Write connB (''Nickname '' @ sq @ ''bob'' @ sq @ '' is already taken by a:1'' @ nl),
          Write connA (''User '' @ sq @ ''b:2'' @ sq
                         @ '' tried to steal your nickname '' @ sq @ ''bob'' @ sq @ nl)])"
    unfolding b by simp
  from u h2 h6 h7 have r3: "Run_step pool_b (Inbound \<lparr>connection = connB, message = ''/nick bob''\<rparr>) =
       Inr (pool_b\<lparr>nicks := (nicks pool_b)(''b:2'' \<mapsto> ''bob''),
                   rnicks := (rnicks pool_b)(''bob'' \<mapsto> ''b:2'')\<rparr>,
            [Write connB (self_framed (''Nickname changed from '' @ sq @ ''b:2'' @ sq @ '' to '' @ sq @ ''bob'' @ sq))])"
    unfolding b d out by simp
  show ?thesis
    by (intro conjI) (rule wf h1 r1 h2 h3 h5 h4 r2 wfb h6 h7 r3)+
qed

text \<open>
  C6, as stated, at the small server. After \<open>a:1\<close> has changed its nickname from \<open>bob\<close> to
  \<open>alice\<close>, the reverse entry of \<open>bob\<close> is still \<open>a:1\<close>, and \<open>bob\<close> still resolves to the
  connection of \<open>a:1\<close>.
\<close>

theorem rename_keeps_old_reverse_counterexample:
  "Run_step pool_ab (Inbound \<lparr>connection = connA, message = ''/nick alice''\<rparr>) =
     Inr (pool_ab_alice,
          [Write connA (self_framed (''Nickname changed from '' @ sq @ ''bob'' @ sq @ '' to '' @ sq @ ''alice'' @ sq)),
           Write connB (attributed ''a:1'' (''Nickname changed from '' @ sq @ ''bob'' @ sq @ '' to '' @ sq @ ''alice'' @ sq))])
   \<and> rnicks pool_ab_alice ''bob'' = Some ''a:1''
   \<and> connectionFromNickOrName pool_ab_alice ''bob'' = Some connA"
proof -
  let ?m = "\<lparr>connection = connA, message = ''/nick alice''\<rparr>"
  have s: "strings_Split (message ?m) = [''/nick'', ''alice'']" by simp
  have free: "connectionFromNickOrName pool_ab ''alice'' = None"
    by (simp add: connectionFromNickOrName_def pool_ab_def)
  have a: "RemoteAddr (connection ?m) = ''a:1''" by (simp add: connA_def)
  have g: "snd (getNames pool_ab ?m) = ''bob''"
    by (simp add: getNames_def Let_def pool_ab_def connA_def)
  have out: "sendAll pool_ab ''a:1'' body =
      [Write connA (self_framed body), Write connB (attributed ''a:1'' body)]" for body
    by (simp add: sendAll_def pool_ab_def attributed_def self_framed_def)
  have p: "pool_ab\<lparr>nicks := (nicks pool_ab)(''a:1'' \<mapsto> ''alice''),
                   rnicks := (rnicks pool_ab)(''alice'' \<mapsto> ''a:1'')\<rparr> = pool_ab_alice"
    by (simp add: pool_ab_def pool_ab_alice_def)
  have pre: "HasPrefix_slash (message ?m)" by (simp add: HasPrefix_slash_def)
  have "handleCommand pool_ab ?m =
     Inr (pool_ab_alice,
          [Write connA (self_framed (''Nickname changed from '' @ sq @ ''bob'' @ sq @ '' to '' @ sq @ ''alice'' @ sq)),
           Write connB (attributed ''a:1'' (''Nickname changed from '' @ sq @ ''bob'' @ sq @ '' to '' @ sq @ ''alice'' @ sq))])"
    using handleCommand_nick_free [OF s free] unfolding a g out p by simp
  with pre have "Run_step pool_ab (Inbound ?m) =
     Inr (pool_ab_alice,
          [Write connA (self_framed (''Nickname changed from '' @ sq @ ''bob'' @ sq @ '' to '' @ sq @ ''alice'' @ sq)),
           Write connB (attributed ''a:1'' (''Nickname changed from '' @ sq @ ''bob'' @ sq @ '' to '' @ sq @ ''alice'' @ sq))])"
    by simp
  moreover have "rnicks pool_ab_alice ''bob'' = Some ''a:1''"
    by (simp add: pool_ab_alice_def)
  moreover have "connectionFromNickOrName pool_ab_alice ''bob'' = Some connA"
    by (simp add: connectionFromNickOrName_def pool_ab_alice_def)
  ultimately show ?thesis by blast
qed

text \<open>
  C6, amended. When an identity that has a nickname sends \<open>/nick\<close> with a one-word name
  that resolves to no connection, the new forward and reverse bindings are installed and
  nothing else changes; the notice of the change goes through \<open>sendAll\<close> to every roster
  entry, self-framed for the entry under the sender's remote address and attributed to
  that remote address for the others. The reverse binding of the old nickname is left in
  place: where it pointed to a registered sender, the old nickname still resolves to the
  sender's connection.
\<close>

theorem nick_change_keeps_old_reverse:
  assumes nosp: "sp \<notin> set new"
    and old: "nicks pool (RemoteAddr c) = Some old"
    and free: "connectionFromNickOrName pool new = None"
  shows "let pool' = pool\<lparr>nicks := (nicks pool)(RemoteAddr c \<mapsto> new),
                          rnicks := (rnicks pool)(new \<mapsto> RemoteAddr c)\<rparr>;
             notice = ''Nickname changed from '' @ sq @ display_name pool c @ sq @ '' to ''
                        @ sq @ new @ sq
         in Run_step pool (Inbound \<lparr>connection = c, message = ''/nick '' @ new\<rparr>) =
              Inr (pool', map (\<lambda>(n, c'). Write c' (if n = RemoteAddr c then self_framed notice
                                                     else attributed (RemoteAddr c) notice))
                              (connections pool))
          \<and> (old \<noteq> new \<longrightarrow> rnicks pool' old = rnicks pool old)
          \<and> (registered pool c \<and> rnicks pool old = Some (RemoteAddr c)
                \<longrightarrow> connectionFromNickOrName pool' old = Some c)"
proof -
  let ?m = "\<lparr>connection = c, message = ''/nick '' @ new\<rparr>"
  let ?p = "pool\<lparr>nicks := (nicks pool)(RemoteAddr c \<mapsto> new),
                  rnicks := (rnicks pool)(new \<mapsto> RemoteAddr c)\<rparr>"
  let ?notice = "''Nickname changed from '' @ sq @ display_name pool c @ sq @ '' to '' @ sq @ new @ sq"
  have s: "strings_Split (message ?m) = [''/nick'', new]"
    using Split_nick [OF nosp] by simp
  have pre: "HasPrefix_slash (message ?m)" by (simp add: HasPrefix_slash_def)
  have fan: "sendAll pool (RemoteAddr c) body =
      map (\<lambda>(n, c'). Write c' (if n = RemoteAddr c then self_framed body
                                else attributed (RemoteAddr c) body)) (connections pool)" for body
    by (simp add: sendAll_def self_framed_def attributed_def if_distrib cong: if_cong)
  have gn: "snd (getNames pool ?m) = display_name pool c" by (simp add: getNames_display)
  have ad: "RemoteAddr (connection ?m) = RemoteAddr c" by simp
  have "handleCommand pool ?m = Inr (?p, sendAll pool (RemoteAddr c) ?notice)"
    using handleCommand_nick_free [OF s free] unfolding gn ad .
  then have hc: "handleCommand pool ?m =
      Inr (?p, map (\<lambda>(n, c'). Write c' (if n = RemoteAddr c then self_framed ?notice
                                           else attributed (RemoteAddr c) ?notice))
                   (connections pool))"
    by (simp only: fan)
  have rs: "Run_step pool (Inbound ?m) = handleCommand pool ?m"
    using pre by simp
  have step: "Run_step pool (Inbound ?m) =
      Inr (?p, map (\<lambda>(n, c'). Write c' (if n = RemoteAddr c then self_framed ?notice
                                           else attributed (RemoteAddr c) ?notice))
                   (connections pool))"
    by (simp only: rs hc)
  have keep: "old \<noteq> new \<longrightarrow> rnicks ?p old = rnicks pool old" by simp
  have resolves: "registered pool c \<and> rnicks pool old = Some (RemoteAddr c)
      \<longrightarrow> connectionFromNickOrName ?p old = Some c"
    by (auto simp: connectionFromNickOrName_def registered_def)
  from step keep resolves show ?thesis unfolding Let_def by blast
qed

theorem nick_change_keeps_old_reverse_witness:
  "sp \<notin> set ''alice''
   \<and> nicks pool_ab (RemoteAddr connA) = Some ''bob''
   \<and> connectionFromNickOrName pool_ab ''alice'' = None
   \<and> registered pool_ab connA \<and> rnicks pool_ab ''bob'' = Some (RemoteAddr connA)
   \<and> ''bob'' \<noteq> ''alice''
   \<and> rnicks (pool_ab\<lparr>nicks := (nicks pool_ab)(RemoteAddr connA \<mapsto> ''alice''),
                      rnicks := (rnicks pool_ab)(''alice'' \<mapsto> RemoteAddr connA)\<rparr>) ''bob''
       = rnicks pool_ab ''bob''
   \<and> connectionFromNickOrName
        (pool_ab\<lparr>nicks := (nicks pool_ab)(RemoteAddr connA \<mapsto> ''alice''),
                 rnicks := (rnicks pool_ab)(''alice'' \<mapsto> RemoteAddr connA)\<rparr>) ''bob''
       = Some connA"
proof -
  have nosp: "sp \<notin> set ''alice''" by simp
  have old: "nicks pool_ab (RemoteAddr connA) = Some ''bob''"
    by (simp add: pool_ab_def connA_def)
  have free: "connectionFromNickOrName pool_ab ''alice'' = None"
    by (simp add: connectionFromNickOrName_def pool_ab_def)
  have reg: "registered pool_ab connA" by (simp add: registered_def pool_ab_def connA_def)
  have rev: "rnicks pool_ab ''bob'' = Some (RemoteAddr connA)"
    by (simp add: pool_ab_def connA_def)
  have ne: "''bob'' \<noteq> ''alice''" by simp
  from nick_change_keeps_old_reverse [OF nosp old free] reg rev ne
  have "rnicks (pool_ab\<lparr>nicks := (nicks pool_ab)(RemoteAddr connA \<mapsto> ''alice''),
                      rnicks := (rnicks pool_ab)(''alice'' \<mapsto> RemoteAddr connA)\<rparr>) ''bob''
       = rnicks pool_ab ''bob''"
    and "connectionFromNickOrName
        (pool_ab\<lparr>nicks := (nicks pool_ab)(RemoteAddr connA \<mapsto> ''alice''),
                 rnicks := (rnicks pool_ab)(''alice'' \<mapsto> RemoteAddr connA)\<rparr>) ''bob''
       = Some connA"
    unfolding Let_def by blast+
  with nosp old free reg rev ne show ?thesis by blast
qed

subsection \<open>The command \<open>/who\<close>\<close>

text \<open>
  C7, as stated, at the small server. The reply to \<open>/who\<close> from \<open>a:1\<close> has the line
  \<open>bob (a:1) *\<close>: the nickname, then the identity in parentheses. The entry in the
  specification's words is the identity, then the nickname in parentheses, \<open>a:1 (bob) *\<close>.
\<close>

theorem who_format_counterexample:
  "Run_step pool_ab (Inbound \<lparr>connection = connA, message = ''/who''\<rparr>) =
     Inr (pool_ab, [Write connA (''bob (a:1) *'' @ nl @ ''b:2'' @ nl)])
   \<and> strings_Join (map (who_entry_spec pool_ab (RemoteAddr connA))
                       (map fst (connections pool_ab))) nl @ nl
       = ''a:1 (bob) *'' @ nl @ ''b:2'' @ nl
   \<and> ''bob (a:1) *'' @ nl @ ''b:2'' @ nl \<noteq> ''a:1 (bob) *'' @ nl @ ''b:2'' @ nl"
proof -
  let ?m = "\<lparr>connection = connA, message = ''/who''\<rparr>"
  have s: "strings_Split (message ?m) = ''/who'' # []" by simp
  have pre: "HasPrefix_slash (message ?m)" by (simp add: HasPrefix_slash_def)
  have l: "map (who_line pool_ab ?m) (connections pool_ab) = [''bob (a:1) *'', ''b:2'']"
    by (simp add: who_line_def pool_ab_def connA_def connB_def)
  have "handleCommand pool_ab ?m = Inr (pool_ab, [Write connA (''bob (a:1) *'' @ nl @ ''b:2'' @ nl)])"
    using handleCommand_who [OF s, of pool_ab] unfolding l by simp
  with pre have "Run_step pool_ab (Inbound ?m) =
     Inr (pool_ab, [Write connA (''bob (a:1) *'' @ nl @ ''b:2'' @ nl)])"
    by simp
  moreover have "strings_Join (map (who_entry_spec pool_ab (RemoteAddr connA))
                       (map fst (connections pool_ab))) nl @ nl
       = ''a:1 (bob) *'' @ nl @ ''b:2'' @ nl"
    by (simp add: who_entry_spec_def pool_ab_def connA_def)
  moreover have "''bob (a:1) *'' @ nl @ ''b:2'' @ nl \<noteq> ''a:1 (bob) *'' @ nl @ ''b:2'' @ nl"
    by simp
  ultimately show ?thesis by blast
qed

lemma who_line_entry:
  assumes wf: "roster_wf pool" and reg: "registered pool c"
    and mem: "(n, c') \<in> set (connections pool)"
  shows "who_line pool \<lparr>connection = c, message = body\<rparr> (n, c') = who_entry pool (RemoteAddr c) n"
  using own_entry [OF wf reg mem]
  by (simp add: who_line_def who_entry_def Let_def split: option.splits)

text \<open>
  C7, amended. In a well-formed roster the reply to \<open>/who\<close> from a registered connection
  goes to the sender only, the pool is unchanged, and the reply has one line per roster
  entry, in the order of the iteration: the nickname followed by the identity in
  parentheses when the identity has a nickname, the identity alone otherwise, and a
  trailing asterisk on the entry of the requester and on no other.
\<close>

theorem who_reply:
  assumes wf: "roster_wf pool" and reg: "registered pool c"
  shows "Run_step pool (Inbound \<lparr>connection = c, message = ''/who''\<rparr>) =
     Inr (pool, [Write c (strings_Join (map (who_entry pool (RemoteAddr c))
                                            (map fst (connections pool))) nl @ nl)])"
proof -
  let ?m = "\<lparr>connection = c, message = ''/who''\<rparr>"
  have s: "strings_Split (message ?m) = ''/who'' # []" by simp
  have pre: "HasPrefix_slash (message ?m)" by (simp add: HasPrefix_slash_def)
  have l: "map (who_line pool ?m) (connections pool)
         = map (who_entry pool (RemoteAddr c)) (map fst (connections pool))"
    unfolding map_map
  proof (rule map_cong [OF refl])
    fix e assume mem: "e \<in> set (connections pool)"
    obtain n c' where e: "e = (n, c')" by (cases e)
    from who_line_entry [OF wf reg] mem e
    show "who_line pool ?m e = (who_entry pool (RemoteAddr c) \<circ> fst) e" by simp
  qed
  have "handleCommand pool ?m =
     Inr (pool, [Write c (strings_Join (map (who_entry pool (RemoteAddr c))
                                            (map fst (connections pool))) nl @ nl)])"
    using handleCommand_who [OF s, of pool] unfolding l by simp
  with pre show ?thesis by simp
qed

theorem who_reply_witness:
  "roster_wf pool_ab \<and> registered pool_ab connA
   \<and> Run_step pool_ab (Inbound \<lparr>connection = connA, message = ''/who''\<rparr>) =
       Inr (pool_ab, [Write connA (''bob (a:1) *'' @ nl @ ''b:2'' @ nl)])"
proof -
  have wf: "roster_wf pool_ab" by (simp add: roster_wf_def pool_ab_def connA_def connB_def)
  have reg: "registered pool_ab connA" by (simp add: registered_def pool_ab_def connA_def)
  have "strings_Join (map (who_entry pool_ab (RemoteAddr connA)) (map fst (connections pool_ab))) nl @ nl
      = ''bob (a:1) *'' @ nl @ ''b:2'' @ nl"
    by (simp add: who_entry_def pool_ab_def connA_def)
  with who_reply [OF wf reg] wf reg show ?thesis by simp
qed

subsection \<open>The command \<open>/privmsg\<close>\<close>

text \<open>
  C8. For a line \<open>/privmsg target body\<close> with a one-word target: the target is looked up
  in the reverse map, and the identity found there, or else the target itself, is looked
  up in the roster. When that gives no connection, or gives the sender's own, the sender
  alone gets a notice. Otherwise the connection found gets the body framed as private
  under the sender's display name, the sender gets the confirmation, nobody else gets
  anything, and the pool is unchanged in every case.
\<close>

theorem privmsg_delivery:
  assumes nosp: "sp \<notin> set target"
  shows "Run_step pool (Inbound \<lparr>connection = c, message = ''/privmsg '' @ target @ '' '' @ body\<rparr>) =
     Inr (pool,
       case (case rnicks pool target of
               Some i \<Rightarrow> map_of (connections pool) i
             | None \<Rightarrow> map_of (connections pool) target) of
         None \<Rightarrow> [Write c (''Couldn'' @ sq @ ''t find a person named '' @ sq @ target @ sq @ nl)]
       | Some remote \<Rightarrow>
           if remote = c
           then [Write c (''You can'' @ sq @ ''t privmsg yourself'' @ nl)]
           else [Write remote (display_name pool c @ '' (private)> '' @ body @ nl),
                 Write c (''Message sent'' @ nl)])"
proof -
  let ?m = "\<lparr>connection = c, message = ''/privmsg '' @ target @ '' '' @ body\<rparr>"
  have s: "strings_Split (message ?m) = ''/privmsg'' # target # strings_Split body"
    using Split_privmsg [OF nosp] by simp
  have pre: "HasPrefix_slash (message ?m)" by (simp add: HasPrefix_slash_def)
  have res: "connectionFromNickOrName pool target =
      (case rnicks pool target of
         Some i \<Rightarrow> map_of (connections pool) i
       | None \<Rightarrow> map_of (connections pool) target)"
    by (simp add: connectionFromNickOrName_def split: option.splits)
  have gn: "snd (getNames pool ?m) = display_name pool c" by (simp add: getNames_display)
  have cn: "connection ?m = c" by simp
  have rs: "Run_step pool (Inbound ?m) = handleCommand pool ?m"
    using pre by simp
  show ?thesis
    unfolding rs handleCommand_privmsg [OF s] Join_Split gn cn res ..
qed

theorem privmsg_delivery_witness:
  "sp \<notin> set ''bob''
   \<and> Run_step pool_ab (Inbound \<lparr>connection = connB, message = ''/privmsg bob hello there''\<rparr>) =
       Inr (pool_ab, [Write connA (''b:2 (private)> hello there'' @ nl),
                      Write connB (''Message sent'' @ nl)])"
proof -
  have nosp: "sp \<notin> set ''bob''" by simp
  have "Run_step pool_ab (Inbound \<lparr>connection = connB, message = ''/privmsg bob hello there''\<rparr>) =
       Inr (pool_ab, [Write connA (''b:2 (private)> hello there'' @ nl),
                      Write connB (''Message sent'' @ nl)])"
    using privmsg_delivery [OF nosp, of pool_ab connB "''hello there''"]
    by (simp add: pool_ab_def connA_def connB_def display_name_def)
  with nosp show ?thesis by simp
qed

subsection \<open>Register for an identity that is in the roster\<close>

text \<open>
  C10. When the roster has an entry for the remote address of the connection being
  registered, the turn returns, the entry now holds the new connection, and the roster
  has the same keys in the same order. Both nickname maps are unchanged, so the display
  name of the new connection is the one bound to the identity before, and a nickname
  whose reverse entry is the identity now resolves to the new connection.
\<close>

theorem register_existing_overwrites:
  assumes present: "map_of (connections pool) (RemoteAddr c') = Some c"
  shows "\<exists>pool'. Run_step pool (Register c') = Inr (pool', [])
     \<and> map_of (connections pool') (RemoteAddr c') = Some c'
     \<and> map fst (connections pool') = map fst (connections pool)
     \<and> (\<forall>k. k \<noteq> RemoteAddr c' \<longrightarrow> map_of (connections pool') k = map_of (connections pool) k)
     \<and> nicks pool' = nicks pool
     \<and> rnicks pool' = rnicks pool
     \<and> (\<forall>body. getNames pool' \<lparr>connection = c', message = body\<rparr>
                = (RemoteAddr c', display_name pool c'))
     \<and> (\<forall>n. rnicks pool n = Some (RemoteAddr c') \<longrightarrow> connectionFromNickOrName pool' n = Some c')"
proof -
  let ?p = "pool\<lparr>connections := AList.update (RemoteAddr c') c' (connections pool)\<rparr>"
  from present have "(RemoteAddr c', c) \<in> set (connections pool)"
    by (rule map_of_SomeD)
  then have "RemoteAddr c' \<in> fst ` set (connections pool)"
    by force
  then have keys: "map fst (connections ?p) = map fst (connections pool)"
    by (simp add: AList.update_keys)
  have "Run_step pool (Register c') = Inr (?p, [])" by simp
  moreover have "map_of (connections ?p) (RemoteAddr c') = Some c'"
    by (simp add: AList.update_conv')
  moreover have "\<forall>k. k \<noteq> RemoteAddr c' \<longrightarrow> map_of (connections ?p) k = map_of (connections pool) k"
    by (simp add: AList.update_conv')
  moreover have "\<forall>body. getNames ?p \<lparr>connection = c', message = body\<rparr>
                = (RemoteAddr c', display_name pool c')"
    by (simp add: getNames_display display_name_def)
  moreover have "\<forall>n. rnicks pool n = Some (RemoteAddr c') \<longrightarrow> connectionFromNickOrName ?p n = Some c'"
    by (simp add: connectionFromNickOrName_def AList.update_conv')
  moreover have "nicks ?p = nicks pool" and "rnicks ?p = rnicks pool" by simp_all
  ultimately show ?thesis using keys by blast
qed

theorem register_existing_overwrites_witness:
  "map_of (connections pool_ab) (RemoteAddr connA') = Some connA
   \<and> Run_step pool_ab (Register connA') =
       Inr (pool_ab\<lparr>connections := [(''a:1'', connA'), (''b:2'', connB)]\<rparr>, [])
   \<and> getNames (pool_ab\<lparr>connections := [(''a:1'', connA'), (''b:2'', connB)]\<rparr>)
        \<lparr>connection = connA', message = ''hi''\<rparr> = (''a:1'', ''bob'')
   \<and> rnicks pool_ab ''bob'' = Some (RemoteAddr connA')
   \<and> connectionFromNickOrName (pool_ab\<lparr>connections := [(''a:1'', connA'), (''b:2'', connB)]\<rparr>) ''bob''
       = Some connA'"
proof -
  let ?q = "pool_ab\<lparr>connections := [(''a:1'', connA'), (''b:2'', connB)]\<rparr>"
  have present: "map_of (connections pool_ab) (RemoteAddr connA') = Some connA"
    by (simp add: pool_ab_def connA'_def)
  have step: "Run_step pool_ab (Register connA') = Inr (?q, [])"
    by (simp add: pool_ab_def connA'_def)
  have rev: "rnicks pool_ab ''bob'' = Some (RemoteAddr connA')"
    by (simp add: pool_ab_def connA'_def)
  have dn: "(RemoteAddr connA', display_name pool_ab connA') = (''a:1'', ''bob'')"
    by (simp add: display_name_def pool_ab_def connA'_def)
  from register_existing_overwrites [OF present] obtain pool' where
    r: "Run_step pool_ab (Register connA') = Inr (pool', [])"
    and g: "\<forall>body. getNames pool' \<lparr>connection = connA', message = body\<rparr>
                = (RemoteAddr connA', display_name pool_ab connA')"
    and n: "\<forall>n. rnicks pool_ab n = Some (RemoteAddr connA') \<longrightarrow> connectionFromNickOrName pool' n = Some connA'"
    by blast
  from r step have eq: "pool' = ?q" by simp
  from g have "getNames ?q \<lparr>connection = connA', message = ''hi''\<rparr> = (''a:1'', ''bob'')"
    unfolding eq dn by (rule spec)
  moreover from n rev have "connectionFromNickOrName ?q ''bob'' = Some connA'"
    unfolding eq by blast
  ultimately show ?thesis using present step rev by blast
qed

end
